theory Spec2Isabelle
  imports Main
begin

section \<open>Strings as Python sees them\<close>

text \<open>
  A Python \<open>str\<close> is modelled as a \<open>string\<close> (a list of 8-bit characters). Case mapping
  acts on the ASCII letters only; the link syntax the converter looks for is pure ASCII.
\<close>

definition uppers :: string where
  "uppers = ''ABCDEFGHIJKLMNOPQRSTUVWXYZ''"

definition lowers :: string where
  "lowers = ''abcdefghijklmnopqrstuvwxyz''"

definition is_upper :: "char \<Rightarrow> bool" where
  "is_upper c = (c \<in> set uppers)"

definition is_lower :: "char \<Rightarrow> bool" where
  "is_lower c = (c \<in> set lowers)"

definition to_lower :: "char \<Rightarrow> char" where
  "to_lower c = (case map_of (zip uppers lowers) c of Some d \<Rightarrow> d | None \<Rightarrow> c)"

definition to_upper :: "char \<Rightarrow> char" where
  "to_upper c = (case map_of (zip lowers uppers) c of Some d \<Rightarrow> d | None \<Rightarrow> c)"

text \<open>\<^verbatim>\<open>s.lower()\<close>\<close>

definition lower :: "string \<Rightarrow> string" where
  "lower s = map to_lower s"

text \<open>
  \<^verbatim>\<open>s.title()\<close>: a cased character that follows a cased character is lowered, any other
  character is title-cased; characters without case are copied and end the word.
\<close>

fun title_from :: "bool \<Rightarrow> string \<Rightarrow> string" where
  "title_from previous_is_cased [] = []"
| "title_from previous_is_cased (c # cs) =
     (if previous_is_cased then to_lower c else to_upper c)
       # title_from (is_lower c \<or> is_upper c) cs"

definition title :: "string \<Rightarrow> string" where
  "title s = title_from False s"

text \<open>\<^verbatim>\<open>s.replace("-", " ")\<close>\<close>

definition replace_hyphens :: "string \<Rightarrow> string" where
  "replace_hyphens s = map (\<lambda>c. if c = CHR ''-'' then CHR '' '' else c) s"

text \<open>\<^verbatim>\<open>s.startswith(p)\<close>, \<^verbatim>\<open>s.endswith(p)\<close> and \<^verbatim>\<open>p in s\<close>\<close>

definition startswith :: "string \<Rightarrow> string \<Rightarrow> bool" where
  "startswith s p = (take (length p) s = p)"

definition endswith :: "string \<Rightarrow> string \<Rightarrow> bool" where
  "endswith s p = (length p \<le> length s \<and> drop (length s - length p) s = p)"

fun contains :: "string \<Rightarrow> string \<Rightarrow> bool" where
  "contains [] p = (p = [])"
| "contains (c # s) p = (startswith (c # s) p \<or> contains s p)"

section \<open>The regular expressions of the converter\<close>

text \<open>
  The three patterns of \<^verbatim>\<open>apply_reverse_conversions\<close> use literal characters, negated
  character sets, the greedy quantifiers \<^verbatim>\<open>?\<close>, \<^verbatim>\<open>+\<close> and \<^verbatim>\<open>*\<close> on a single character
  set, alternation, concatenation and capture groups. \<open>regex\<close> is the abstract syntax of
  that fragment.
\<close>

datatype cset =
    Is char                \<comment> \<open>a literal or escaped character\<close>
  | Non "char list"        \<comment> \<open>a negated set \<^verbatim>\<open>[^...]\<close>\<close>

datatype regex =
    Eps
  | One cset
  | Opt cset               \<comment> \<open>\<^verbatim>\<open>x?\<close>\<close>
  | Plus cset              \<comment> \<open>\<^verbatim>\<open>x+\<close>\<close>
  | Star cset              \<comment> \<open>\<^verbatim>\<open>x*\<close>\<close>
  | Seq regex regex
  | Alt regex regex        \<comment> \<open>\<^verbatim>\<open>a|b\<close>\<close>
  | Group regex            \<comment> \<open>\<^verbatim>\<open>(a)\<close>\<close>

text \<open>Whether a character set accepts a character; \<open>ic\<close> is \<^verbatim>\<open>re.IGNORECASE\<close>.\<close>

fun accepts :: "bool \<Rightarrow> cset \<Rightarrow> char \<Rightarrow> bool" where
  "accepts ic (Is x) c = (if ic then to_lower c = to_lower x else c = x)"
| "accepts ic (Non xs) c = (if ic then to_lower c \<notin> to_lower ` set xs else c \<notin> set xs)"

text \<open>
  \<open>ms ic r s\<close> lists every way \<open>r\<close> matches a prefix of \<open>s\<close>, in the order in which the
  backtracking matcher of \<^verbatim>\<open>re\<close> tries them: the captured groups (in the order of their
  opening parentheses) and the input that is left. A greedy quantifier tries the longest
  run first, an alternation its left branch first.
\<close>

fun ms :: "bool \<Rightarrow> regex \<Rightarrow> string \<Rightarrow> (string list \<times> string) list" where
  "ms ic Eps s = [([], s)]"
| "ms ic (One cs) s =
     (case s of [] \<Rightarrow> [] | c # rest \<Rightarrow> if accepts ic cs c then [([], rest)] else [])"
| "ms ic (Opt cs) s =
     (case s of [] \<Rightarrow> [] | c # rest \<Rightarrow> if accepts ic cs c then [([], rest)] else []) @ [([], s)]"
| "ms ic (Plus cs) s =
     map (\<lambda>k. ([], drop k s)) (rev [1 ..< Suc (length (takeWhile (accepts ic cs) s))])"
| "ms ic (Star cs) s =
     map (\<lambda>k. ([], drop k s)) (rev [0 ..< Suc (length (takeWhile (accepts ic cs) s))])"
| "ms ic (Seq a b) s =
     concat (map (\<lambda>(g1, r1). map (\<lambda>(g2, r2). (g1 @ g2, r2)) (ms ic b r1)) (ms ic a s))"
| "ms ic (Alt a b) s = ms ic a s @ ms ic b s"
| "ms ic (Group a) s =
     map (\<lambda>(g, r). (take (length s - length r) s # g, r)) (ms ic a s)"

text \<open>Concatenation of a list of patterns, a literal word, and a list of alternatives.\<close>

fun seqs :: "regex list \<Rightarrow> regex" where
  "seqs [] = Eps"
| "seqs [r] = r"
| "seqs (r # rs) = Seq r (seqs rs)"

definition word :: "string \<Rightarrow> regex" where
  "word s = seqs (map (\<lambda>c. One (Is c)) s)"

fun alts :: "regex list \<Rightarrow> regex" where
  "alts [] = Eps"
| "alts [r] = r"
| "alts (r # rs) = Alt r (alts rs)"

text \<open>
  A match object: \<open>groups ! 0\<close> is the whole match, \<open>groups ! i\<close> group \<open>i\<close>; \<open>rest\<close> is the
  input after the match. \<^verbatim>\<open>m.group(i)\<close> raises IndexError for a group the pattern does not
  have; every use below asks for a group its pattern has (lemma \<open>ms_groups\<close>), and \<open>group\<close>
  gives the empty string otherwise.
\<close>

definition group :: "string list \<Rightarrow> nat \<Rightarrow> string" where
  "group m i = (if i < length m then m ! i else [])"

text \<open>\<^verbatim>\<open>re.match\<close>: the first way the pattern matches at the start of \<open>s\<close>.\<close>

definition re_match :: "bool \<Rightarrow> regex \<Rightarrow> string \<Rightarrow> (string list \<times> string) option" where
  "re_match ic r s =
     (case ms ic r s of [] \<Rightarrow> None
      | (g, rest) # _ \<Rightarrow> Some (take (length s - length rest) s # g, rest))"

text \<open>
  \<^verbatim>\<open>re.sub(pattern, repl, s)\<close> with a function \<open>repl\<close>: scan from the left; where the pattern
  matches, emit \<open>repl\<close> of the match and go on after it; elsewhere copy one character. After
  an empty match one character is copied, so the scan always advances.
\<close>

function re_sub :: "bool \<Rightarrow> regex \<Rightarrow> (string list \<Rightarrow> string) \<Rightarrow> string \<Rightarrow> string" where
  "re_sub ic r repl s =
     (case re_match ic r s of
        None \<Rightarrow> (case s of [] \<Rightarrow> [] | c # cs \<Rightarrow> c # re_sub ic r repl cs)
      | Some (m, rest) \<Rightarrow>
          if length rest < length s then repl m @ re_sub ic r repl rest
          else repl m @ (case s of [] \<Rightarrow> [] | c # cs \<Rightarrow> c # re_sub ic r repl cs))"
  by pat_completeness auto
termination
  by (relation "measure (\<lambda>(ic, r, repl, s). length s)") auto

section \<open>The dialect converter\<close>

text \<open>\<^verbatim>\<open>([^!]?)\[\[([^|\]]+)\|([^|\]]+)\]\]\<close>\<close>

definition page_link_pattern :: regex where
  "page_link_pattern =
     seqs [Group (Opt (Non ''!'')), One (Is CHR ''[''), One (Is CHR ''[''),
           Group (Plus (Non ''|]'')), One (Is CHR ''|''),
           Group (Plus (Non ''|]'')), One (Is CHR '']''), One (Is CHR '']'')]"

text \<open>\<^verbatim>\<open>\[([^\]]+)\]\(#([^)]+)\)\<close>\<close>

definition header_link_pattern :: regex where
  "header_link_pattern =
     seqs [One (Is CHR ''[''), Group (Plus (Non '']'')), One (Is CHR '']''),
           One (Is CHR ''(''), One (Is CHR ''#''),
           Group (Plus (Non '')'')), One (Is CHR '')'')]"

text \<open>\<^verbatim>\<open>([^!]?)(\[\[[^\]]+\.(png|jpg|jpeg|gif|svg|webp|bmp)[^\]]*\]\])\<close>\<close>

definition image_link_pattern :: regex where
  "image_link_pattern =
     seqs [Group (Opt (Non ''!'')),
           Group (seqs [One (Is CHR ''[''), One (Is CHR ''[''), Plus (Non '']''),
                        One (Is CHR ''.''),
                        Group (alts [word ''png'', word ''jpg'', word ''jpeg'', word ''gif'',
                                     word ''svg'', word ''webp'', word ''bmp'']),
                        Star (Non '']''), One (Is CHR '']''), One (Is CHR '']'')])]"

text \<open>\<^verbatim>\<open>\[\[([^\]]+)\]\]\<close>, used inside \<^verbatim>\<open>reverse_image_links\<close>\<close>

definition filename_pattern :: regex where
  "filename_pattern =
     seqs [One (Is CHR ''[''), One (Is CHR ''[''), Group (Plus (Non '']'')),
           One (Is CHR '']''), One (Is CHR '']'')]"

definition reverse_page_links :: "string list \<Rightarrow> string" where
  "reverse_page_links m =
     (let prefix = group m 1;
          linktext = group m 2;
          filename = replace_hyphens (group m 3)
      in prefix @ ''[['' @ filename @ ''|'' @ linktext @ '']]'')"

definition reverse_header_links :: "string list \<Rightarrow> string" where
  "reverse_header_links m =
     (let linktext = group m 1;
          header = title (replace_hyphens (group m 2))
      in ''[[#'' @ header @ ''|'' @ linktext @ '']]'')"

definition image_extensions :: "string list" where
  "image_extensions = [''.png'', ''.jpg'', ''.jpeg'', ''.gif'', ''.svg'', ''.webp'', ''.bmp'']"

definition reverse_image_links :: "string list \<Rightarrow> string" where
  "reverse_image_links m =
     (let prefix = group m 1;
          link_content = group m 2
      in case re_match False filename_pattern link_content of
           Some (filename_match, _) \<Rightarrow>
             if \<exists>ext \<in> set image_extensions. endswith (lower (group filename_match 1)) ext
             then prefix @ ''!'' @ link_content
             else group m 0
         | None \<Rightarrow> group m 0)"

text \<open>The three passes of \<^verbatim>\<open>apply_reverse_conversions\<close>, and their composition.\<close>

definition page_link_pass :: "string \<Rightarrow> string" where
  "page_link_pass text = re_sub False page_link_pattern reverse_page_links text"

definition header_link_pass :: "string \<Rightarrow> string" where
  "header_link_pass text = re_sub False header_link_pattern reverse_header_links text"

definition image_link_pass :: "string \<Rightarrow> string" where
  "image_link_pass text = re_sub True image_link_pattern reverse_image_links text"

definition reverse_conversions :: "string \<Rightarrow> string" where
  "reverse_conversions original_text =
     image_link_pass (header_link_pass (page_link_pass original_text))"


section \<open>More of Python's strings and paths\<close>

definition newline :: char where
  "newline = CHR 0x0A"

text \<open>The ASCII characters \<^verbatim>\<open>str.strip()\<close> removes.\<close>

definition is_space :: "char \<Rightarrow> bool" where
  "is_space c = (c \<in> set [CHR '' '', CHR 0x09, CHR 0x0A, CHR 0x0B, CHR 0x0C, CHR 0x0D,
                           CHR 0x1C, CHR 0x1D, CHR 0x1E, CHR 0x1F])"

definition strip :: "string \<Rightarrow> string" where
  "strip s = rev (dropWhile is_space (rev (dropWhile is_space s)))"

text \<open>\<^verbatim>\<open>s.split(sep)\<close> for a one-character separator: never the empty list.\<close>

fun split_on :: "char \<Rightarrow> string \<Rightarrow> string list" where
  "split_on sep [] = [[]]"
| "split_on sep (c # s) =
     (if c = sep then [] # split_on sep s
      else (case split_on sep s of [] \<Rightarrow> [[c]] | x # xs \<Rightarrow> (c # x) # xs))"

fun join :: "string \<Rightarrow> string list \<Rightarrow> string" where
  "join sep [] = []"
| "join sep [x] = x"
| "join sep (x # xs) = x @ sep @ join sep xs"

text \<open>\<^verbatim>\<open>str(n)\<close> for a natural number.\<close>

fun str_nat :: "nat \<Rightarrow> string" where
  "str_nat n =
     (if n < 10 then [''0123456789'' ! n]
      else str_nat (n div 10) @ [''0123456789'' ! (n mod 10)])"

type_synonym path = string

text \<open>
  \<^verbatim>\<open>Path(f)\<close> of \<^verbatim>\<open>pathlib\<close> on a POSIX system, as a normalised string: empty and \<^verbatim>\<open>.\<close>
  components are dropped, a leading slash is kept.
\<close>

definition Path :: "string \<Rightarrow> path" where
  "Path f =
     (let parts = filter (\<lambda>p. p \<noteq> [] \<and> p \<noteq> ''.'') (split_on CHR ''/'' f);
          root = (if startswith f ''/'' then ''/'' else [])
      in if root = [] \<and> parts = [] then ''.'' else root @ join ''/'' parts)"

text \<open>\<^verbatim>\<open>p.name\<close>: the last component.\<close>

definition name_of :: "path \<Rightarrow> string" where
  "name_of p = last (split_on CHR ''/'' p)"

text \<open>\<^verbatim>\<open>s.rfind(c)\<close>, with \<open>None\<close> for \<^verbatim>\<open>-1\<close>.\<close>

definition rfind :: "string \<Rightarrow> char \<Rightarrow> nat option" where
  "rfind s c =
     (case filter (\<lambda>i. s ! i = c) (rev [0 ..< length s]) of [] \<Rightarrow> None | i # _ \<Rightarrow> Some i)"

text \<open>
  \<^verbatim>\<open>p.suffix\<close>: from the last dot of the name on, unless the name has no dot, starts with
  its only dot or ends with one.
\<close>

definition suffix_of :: "path \<Rightarrow> string" where
  "suffix_of p =
     (let name = name_of p
      in case rfind name CHR ''.'' of
           None \<Rightarrow> []
         | Some i \<Rightarrow> if 0 < i \<and> i + 1 < length name then drop i name else [])"

section \<open>The repository and the processes the orchestrator starts\<close>

text \<open>
  The version-control system is outside the program. It is modelled by the part of a
  repository the program reads and changes, and every command the program starts is an
  explicit step on that state which can fail.
\<close>

type_synonym rev = string

type_synonym tree = "(path \<times> string) list"

record sync_state =
  last_master_hash :: "rev option"
  last_sync_time :: "string option"

text \<open>
  How a started command ends: it exits with status 0, it exits with another status, or it
  is still running after the 300 seconds the program allows. A command that does not end
  with status 0 within that time has changed nothing.
\<close>

datatype outcome = Done | NonZero | Slow

record world =
  git_dir :: bool                          \<comment> \<open>\<^verbatim>\<open>Path(".git").exists()\<close>\<close>
  branch_listing :: string                 \<comment> \<open>what \<^verbatim>\<open>git branch -a\<close> prints\<close>
  current_branch :: string                 \<comment> \<open>the branch that is checked out\<close>
  local_master :: "rev list"               \<comment> \<open>the commits of \<^verbatim>\<open>master\<close>, newest first\<close>
  origin_master :: "rev list"              \<comment> \<open>the remote-tracking ref \<^verbatim>\<open>origin/master\<close>\<close>
  remote_master :: "rev list"              \<comment> \<open>\<^verbatim>\<open>master\<close> on the remote\<close>
  merge_commit :: "rev option"             \<comment> \<open>the merge commit a pull of diverged histories makes, if it can\<close>
  objects :: "(rev \<times> tree) list"          \<comment> \<open>the files of each commit of \<^verbatim>\<open>master\<close>\<close>
  obsidian :: "(string \<times> tree) list"      \<comment> \<open>the commits of the vault branch, newest first: message and files\<close>
  other_branches :: "(string \<times> tree) list" \<comment> \<open>the files at the tip of every other branch\<close>
  worktree :: tree                         \<comment> \<open>the files of the working tree\<close>
  state_file :: "sync_state option"        \<comment> \<open>\<^verbatim>\<open>.obsidian_sync_state.json\<close>, if it exists\<close>
  now :: string                            \<comment> \<open>\<^verbatim>\<open>datetime.now().isoformat()\<close>\<close>
  plan :: "outcome list"                   \<comment> \<open>how the commands still to be started will end\<close>
  trace :: "(string \<times> outcome) list"      \<comment> \<open>the commands started so far and how they ended\<close>

text \<open>Python's exceptions, and a computation that changes the world and may raise one.\<close>

datatype exn =
    CalledProcessError string
  | TimeoutExpired string
  | FileNotFoundError path
  | SystemExit nat

type_synonym 'a io = "world \<Rightarrow> (exn + 'a) \<times> world"

definition ret :: "'a \<Rightarrow> 'a io" where
  "ret x w = (Inr x, w)"

definition raise :: "exn \<Rightarrow> 'a io" where
  "raise e w = (Inl e, w)"

definition bind :: "'a io \<Rightarrow> ('a \<Rightarrow> 'b io) \<Rightarrow> 'b io" where
  "bind m k w = (case m w of (Inl e, w1) \<Rightarrow> (Inl e, w1) | (Inr x, w1) \<Rightarrow> k x w1)"

text \<open>Reading something off the world without changing it.\<close>

definition get :: "(world \<Rightarrow> 'a) \<Rightarrow> 'a io" where
  "get f w = (Inr (f w), w)"

text \<open>
  The status the interpreter exits with: 0 after a normal return, the argument of
  \<^verbatim>\<open>sys.exit\<close>, and 1 after any other exception nobody caught.
\<close>

fun exit_status :: "exn + unit \<Rightarrow> nat" where
  "exit_status (Inr _) = 0"
| "exit_status (Inl (SystemExit n)) = n"
| "exit_status (Inl _) = 1"

text \<open>
  Starting a command. The plan says how it ends (an empty plan: with status 0); a command
  whose effect is undefined in the current state exits with a nonzero status. \<open>timed\<close>
  tells whether the call passes \<^verbatim>\<open>timeout=300\<close>: without it a slow command is waited for.
  The result is how the call saw the command end, and what it printed.
\<close>

definition planned :: "world \<Rightarrow> outcome" where
  "planned w = (case plan w of [] \<Rightarrow> Done | x # _ \<Rightarrow> x)"

definition started :: "string \<Rightarrow> outcome \<Rightarrow> world \<Rightarrow> world" where
  "started command result w = w\<lparr>plan := tl (plan w), trace := trace w @ [(command, result)]\<rparr>"

definition process ::
  "string \<Rightarrow> bool \<Rightarrow> (world \<Rightarrow> (string \<times> world) option) \<Rightarrow> world \<Rightarrow> (outcome \<times> string) \<times> world" where
  "process command timed effect w =
     (if planned w = NonZero \<or> (planned w = Slow \<and> timed)
      then ((planned w, []), started command (planned w) w)
      else (case effect w of
              None \<Rightarrow> ((NonZero, []), started command NonZero w)
            | Some (out, w1) \<Rightarrow> ((Done, out), started command Done w1)))"

text \<open>\<^verbatim>\<open>subprocess.check_output(command, shell=True, timeout=300)\<close>\<close>

definition check_output :: "string \<Rightarrow> (world \<Rightarrow> (string \<times> world) option) \<Rightarrow> string io" where
  "check_output command effect w =
     (case process command True effect w of
        ((Done, out), w1) \<Rightarrow> (Inr out, w1)
      | ((NonZero, _), w1) \<Rightarrow> (Inl (CalledProcessError command), w1)
      | ((Slow, _), w1) \<Rightarrow> (Inl (TimeoutExpired command), w1))"

text \<open>\<^verbatim>\<open>subprocess.check_output(command, shell=True)\<close>\<close>

definition check_output_untimed :: "string \<Rightarrow> (world \<Rightarrow> (string \<times> world) option) \<Rightarrow> string io" where
  "check_output_untimed command effect w =
     (case process command False effect w of
        ((Done, out), w1) \<Rightarrow> (Inr out, w1)
      | ((_, _), w1) \<Rightarrow> (Inl (CalledProcessError command), w1))"

text \<open>\<^verbatim>\<open>subprocess.run(command, shell=True, timeout=300, check=True)\<close>\<close>

definition run_checked :: "string \<Rightarrow> (world \<Rightarrow> (string \<times> world) option) \<Rightarrow> unit io" where
  "run_checked command effect = bind (check_output command effect) (\<lambda>_. ret ())"

text \<open>\<^verbatim>\<open>subprocess.run(command, shell=True, timeout=300, check=False)\<close>\<close>

definition run_unchecked :: "string \<Rightarrow> (world \<Rightarrow> (string \<times> world) option) \<Rightarrow> unit io" where
  "run_unchecked command effect w =
     (case process command True effect w of
        ((Slow, _), w1) \<Rightarrow> (Inl (TimeoutExpired command), w1)
      | ((_, _), w1) \<Rightarrow> (Inr (), w1))"


section \<open>What the version-control commands do\<close>

text \<open>
  Each effect gives what the command prints and the repository it leaves, or \<open>None\<close> where
  the command cannot succeed. A revision is written as its hash: the program strips the
  line break \<^verbatim>\<open>git rev-parse\<close> prints after it, and a hash holds no white space.
\<close>

definition tip :: "rev list \<Rightarrow> rev option" where
  "tip history = (case history of [] \<Rightarrow> None | r # _ \<Rightarrow> Some r)"

text \<open>History \<open>a\<close> is contained in history \<open>b\<close>: its tip is \<open>b\<close>'s tip or an ancestor of it.\<close>

definition reaches :: "rev list \<Rightarrow> rev list \<Rightarrow> bool" where
  "reaches a b = (length a \<le> length b \<and> drop (length b - length a) b = a)"

text \<open>The files at the tip of a branch.\<close>

definition branch_tree :: "world \<Rightarrow> string \<Rightarrow> tree option" where
  "branch_tree w b =
     (if b = ''master'' then
        (case local_master w of [] \<Rightarrow> None | r # _ \<Rightarrow> map_of (objects w) r)
      else if b = ''obsidian'' then
        (case obsidian w of [] \<Rightarrow> None | (msg, t) # _ \<Rightarrow> Some t)
      else map_of (other_branches w) b)"

text \<open>The paths on which two trees differ, as \<^verbatim>\<open>git diff --name-only\<close> lists them.\<close>

definition diff_name_only :: "tree \<Rightarrow> tree \<Rightarrow> path list" where
  "diff_name_only a b = filter (\<lambda>p. map_of a p \<noteq> map_of b p) (remdups (map fst a @ map fst b))"

definition write_file :: "path \<Rightarrow> string \<Rightarrow> tree \<Rightarrow> tree" where
  "write_file p content t = (p, content) # filter (\<lambda>(q, _). q \<noteq> p) t"

definition git_branch_a :: "world \<Rightarrow> (string \<times> world) option" where
  "git_branch_a w = Some (branch_listing w, w)"

definition git_rev_parse_abbrev_ref_HEAD :: "world \<Rightarrow> (string \<times> world) option" where
  "git_rev_parse_abbrev_ref_HEAD w = Some (current_branch w, w)"

definition git_rev_parse_master :: "world \<Rightarrow> (string \<times> world) option" where
  "git_rev_parse_master w = (case tip (local_master w) of None \<Rightarrow> None | Some r \<Rightarrow> Some (r, w))"

definition git_rev_parse_origin_master :: "world \<Rightarrow> (string \<times> world) option" where
  "git_rev_parse_origin_master w =
     (case tip (origin_master w) of None \<Rightarrow> None | Some r \<Rightarrow> Some (r, w))"

definition git_fetch_origin_master :: "world \<Rightarrow> (string \<times> world) option" where
  "git_fetch_origin_master w = Some ([], w\<lparr>origin_master := remote_master w\<rparr>)"

text \<open>Checking a branch out replaces the working tree by the files at its tip.\<close>

definition git_checkout :: "string \<Rightarrow> world \<Rightarrow> (string \<times> world) option" where
  "git_checkout b w =
     (case branch_tree w b of
        None \<Rightarrow> None
      | Some t \<Rightarrow> Some ([], w\<lparr>current_branch := b, worktree := t\<rparr>))"

text \<open>
  \<^verbatim>\<open>git pull origin master\<close>, started with \<^verbatim>\<open>master\<close> checked out: nothing to do when the
  remote history is contained in the local one, a fast-forward when the local history is
  contained in the remote one, and a merge commit on top of the local history otherwise.
\<close>

definition git_pull_origin_master :: "world \<Rightarrow> (string \<times> world) option" where
  "git_pull_origin_master w =
     (let merged =
            (if reaches (remote_master w) (local_master w) then Some (local_master w)
             else if reaches (local_master w) (remote_master w) then Some (remote_master w)
             else (case merge_commit w of None \<Rightarrow> None | Some m \<Rightarrow> Some (m # local_master w)))
      in case merged of
           None \<Rightarrow> None
         | Some history \<Rightarrow>
             (let w1 = w\<lparr>origin_master := remote_master w, local_master := history\<rparr>
              in case branch_tree w1 ''master'' of
                   None \<Rightarrow> None
                 | Some t \<Rightarrow> Some ([], w1\<lparr>worktree := t\<rparr>)))"

text \<open>\<^verbatim>\<open>git diff --name-only <hash> HEAD\<close>: one changed path per line.\<close>

definition git_diff_name_only :: "rev \<Rightarrow> world \<Rightarrow> (string \<times> world) option" where
  "git_diff_name_only r w =
     (case (map_of (objects w) r, branch_tree w (current_branch w)) of
        (Some a, Some b) \<Rightarrow> Some (concat (map (\<lambda>p. p @ [newline]) (diff_name_only a b)), w)
      | _ \<Rightarrow> None)"

text \<open>\<^verbatim>\<open>find . -name '*.md' -not -path './.git/*'\<close>\<close>

definition find_md :: "world \<Rightarrow> (string \<times> world) option" where
  "find_md w =
     Some (concat (map (\<lambda>p. ''./'' @ p @ [newline])
             (filter (\<lambda>p. endswith (name_of p) ''.md'') (map fst (worktree w)))), w)"

text \<open>\<^verbatim>\<open>git checkout master -- "<file>"\<close>: the file as \<^verbatim>\<open>master\<close> has it, into the working tree.\<close>

definition git_checkout_master_file :: "path \<Rightarrow> world \<Rightarrow> (string \<times> world) option" where
  "git_checkout_master_file f w =
     (case branch_tree w ''master'' of
        None \<Rightarrow> None
      | Some t \<Rightarrow>
          (case map_of t f of
             None \<Rightarrow> None
           | Some content \<Rightarrow> Some ([], w\<lparr>worktree := write_file f content (worktree w)\<rparr>)))"

definition git_add_all :: "world \<Rightarrow> (string \<times> world) option" where
  "git_add_all w = Some ([], w)"

text \<open>
  \<^verbatim>\<open>git commit -m "<message>"\<close>. The program starts it only after it has checked the vault
  branch out, so the commit goes there. With nothing to commit the command fails.
\<close>

definition git_commit :: "string \<Rightarrow> world \<Rightarrow> (string \<times> world) option" where
  "git_commit message w =
     (case branch_tree w ''obsidian'' of
        None \<Rightarrow> None
      | Some t \<Rightarrow>
          if diff_name_only t (worktree w) = [] then None
          else Some ([], w\<lparr>obsidian := (message, worktree w) # obsidian w\<rparr>))"

section \<open>The sync orchestrator\<close>

definition get_current_branch :: "string io" where
  "get_current_branch =
     check_output ''git rev-parse --abbrev-ref HEAD'' git_rev_parse_abbrev_ref_HEAD"

definition get_remote_master_hash :: "rev io" where
  "get_remote_master_hash =
     bind (run_checked ''git fetch origin master'' git_fetch_origin_master) (\<lambda>_.
     check_output ''git rev-parse origin/master'' git_rev_parse_origin_master)"

definition get_local_master_hash :: "rev io" where
  "get_local_master_hash = check_output ''git rev-parse master'' git_rev_parse_master"

definition load_sync_state :: "sync_state io" where
  "load_sync_state =
     get (\<lambda>w. case state_file w of
                Some sync_state \<Rightarrow> sync_state
              | None \<Rightarrow> \<lparr>last_master_hash = None, last_sync_time = None\<rparr>)"

definition save_sync_state :: "rev \<Rightarrow> unit io" where
  "save_sync_state master_hash w =
     (Inr (), w\<lparr>state_file :=
        Some \<lparr>last_master_hash = Some master_hash, last_sync_time = Some (now w)\<rparr>\<rparr>)"

definition has_external_changes :: "bool io" where
  "has_external_changes =
     bind load_sync_state (\<lambda>sync_state.
     bind get_local_master_hash (\<lambda>current_master_hash.
     bind get_remote_master_hash (\<lambda>remote_master_hash.
       if current_master_hash \<noteq> remote_master_hash then ret True
       else if last_master_hash sync_state = None then ret True
       else if Some current_master_hash \<noteq> last_master_hash sync_state then ret True
       else ret False)))"

text \<open>
  \<^verbatim>\<open>apply_reverse_conversions(file_path)\<close>: read the file, convert, and write it back if the
  text changed.
\<close>

definition apply_reverse_conversions :: "path \<Rightarrow> bool io" where
  "apply_reverse_conversions file_path w =
     (case map_of (worktree w) file_path of
        None \<Rightarrow> (Inl (FileNotFoundError file_path), w)
      | Some original_text \<Rightarrow>
          (let newtext = reverse_conversions original_text
           in if newtext \<noteq> original_text
              then (Inr True, w\<lparr>worktree := write_file file_path newtext (worktree w)\<rparr>)
              else (Inr False, w)))"

definition required_branches :: "string list" where
  "required_branches = [''obsidian'', ''ob_to_gh'', ''master'']"

text \<open>Lines 145 to 156: the repository and the required branches.\<close>

definition check_preconditions :: "unit io" where
  "check_preconditions =
     bind (get git_dir) (\<lambda>exists.
       if \<not> exists then raise (SystemExit 1)
       else
         bind (check_output_untimed ''git branch -a'' git_branch_a) (\<lambda>branches.
           if \<exists>branch \<in> set required_branches. \<not> contains branches branch
           then raise (SystemExit 1)
           else ret ()))"

text \<open>The quotation marks that occur in the command lines.\<close>

definition dquote :: char where
  "dquote = CHR 0x22"

definition squote :: char where
  "squote = CHR 0x27"

definition find_command :: string where
  "find_command =
     ''find . -name '' @ [squote] @ ''*.md'' @ [squote] @ '' -not -path ''
       @ [squote] @ ''./.git/*'' @ [squote]"

text \<open>
  Step 2, lines 175 to 187: the output that names the changed files. An empty string is
  false in Python, as \<^verbatim>\<open>None\<close> is.
\<close>

definition list_changed_files :: "string io" where
  "list_changed_files =
     bind load_sync_state (\<lambda>sync_state.
       if last_master_hash sync_state \<noteq> None \<and> last_master_hash sync_state \<noteq> Some []
       then bind (check_output
                    (''git diff --name-only '' @ the (last_master_hash sync_state) @ '' HEAD'')
                    (git_diff_name_only (the (last_master_hash sync_state))))
              (\<lambda>out. ret (strip out))
       else bind (check_output find_command find_md) (\<lambda>out. ret (strip out)))"

text \<open>Lines 194 and 195: the paths named in the output, and the markdown files among them.\<close>

definition changed_files_of :: "string \<Rightarrow> path list" where
  "changed_files_of changed_files_output =
     map Path (filter (\<lambda>f. strip f \<noteq> []) (split_on newline changed_files_output))"

definition is_file :: "world \<Rightarrow> path \<Rightarrow> bool" where
  "is_file w f = (map_of (worktree w) f \<noteq> None)"

definition md_files_of :: "path list \<Rightarrow> world \<Rightarrow> path list" where
  "md_files_of changed_files w = filter (\<lambda>f. suffix_of f = ''.md'' \<and> is_file w f) changed_files"

text \<open>Step 4, the loop of lines 208 to 216; the result is \<^verbatim>\<open>converted_files\<close>.\<close>

fun convert_files :: "path list \<Rightarrow> path list io" where
  "convert_files [] = ret []"
| "convert_files (md_file # md_files) =
     bind (run_checked (''git checkout master -- '' @ [dquote] @ md_file @ [dquote])
             (git_checkout_master_file md_file)) (\<lambda>_.
     bind (apply_reverse_conversions md_file) (\<lambda>changed.
     bind (convert_files md_files) (\<lambda>converted_files.
       ret (if changed then md_file # converted_files else converted_files))))"

definition commit_msg :: "path list \<Rightarrow> string" where
  "commit_msg converted_files =
     ''Sync from GitHub Wiki: converted '' @ str_nat (length converted_files) @ '' files''"

text \<open>Step 5, lines 219 to 228.\<close>

definition commit_converted :: "path list \<Rightarrow> unit io" where
  "commit_converted converted_files =
     (if converted_files \<noteq> [] then
        bind (run_checked ''git add --all'' git_add_all) (\<lambda>_.
        run_checked (''git commit -m '' @ [dquote] @ commit_msg converted_files @ [dquote])
          (git_commit (commit_msg converted_files)))
      else ret ())"

text \<open>Steps 1 and 2, lines 170 to 187; the result is \<^verbatim>\<open>changed_files_output\<close>.\<close>

definition steps_1_and_2 :: "string io" where
  "steps_1_and_2 =
     bind (run_checked ''git checkout master'' (git_checkout ''master'')) (\<lambda>_.
     bind (run_checked ''git pull origin master'' git_pull_origin_master) (\<lambda>_.
     list_changed_files))"

text \<open>Steps 3 to 5, lines 205 to 228.\<close>

definition steps_3_to_5 :: "path list \<Rightarrow> unit io" where
  "steps_3_to_5 md_files =
     bind (run_checked ''git checkout obsidian'' (git_checkout ''obsidian'')) (\<lambda>_.
     bind (convert_files md_files) (\<lambda>converted_files.
     commit_converted converted_files))"

text \<open>
  Steps 1 to 5, lines 170 to 228. The result tells whether control reaches step 6:
  \<open>False\<close> stands for the two \<^verbatim>\<open>return\<close> statements of lines 192 and 200.
\<close>

definition steps_1_to_5 :: "bool io" where
  "steps_1_to_5 =
     bind steps_1_and_2 (\<lambda>changed_files_output.
       if changed_files_output = [] then
         bind get_local_master_hash (\<lambda>h. bind (save_sync_state h) (\<lambda>_. ret False))
       else
         bind (get (md_files_of (changed_files_of changed_files_output))) (\<lambda>md_files.
           if md_files = [] then
             bind get_local_master_hash (\<lambda>h. bind (save_sync_state h) (\<lambda>_. ret False))
           else
             bind (steps_3_to_5 md_files) (\<lambda>_. ret True)))"

text \<open>Step 6, lines 231 and 232.\<close>

definition step_6 :: "unit io" where
  "step_6 =
     bind (run_checked ''git checkout master'' (git_checkout ''master'')) (\<lambda>_.
     bind get_local_master_hash (\<lambda>h. save_sync_state h))"

text \<open>\<^verbatim>\<open>except subprocess.CalledProcessError: sys.exit(1)\<close>; other exceptions pass.\<close>

definition except_CalledProcessError :: "unit io \<Rightarrow> unit io" where
  "except_CalledProcessError body w =
     (case body w of
        (Inl (CalledProcessError c), w1) \<Rightarrow> (Inl (SystemExit 1), w1)
      | (r, w1) \<Rightarrow> (r, w1))"

text \<open>
  \<^verbatim>\<open>try: body finally: cleanup\<close>: the cleanup runs however the body ended; an exception of
  the cleanup replaces the body's result.
\<close>

definition try_finally :: "unit io \<Rightarrow> unit io \<Rightarrow> unit io" where
  "try_finally body cleanup w =
     (case body w of
        (r, w1) \<Rightarrow> (case cleanup w1 of (Inl e, w2) \<Rightarrow> (Inl e, w2) | (Inr _, w2) \<Rightarrow> (r, w2)))"

text \<open>Lines 238 to 241.\<close>

definition restore_branch :: "string \<Rightarrow> unit io" where
  "restore_branch original_branch =
     bind get_current_branch (\<lambda>b.
       if original_branch \<noteq> b
       then run_unchecked (''git checkout '' @ original_branch) (git_checkout original_branch)
       else ret ())"

text \<open>Lines 163 to 241: what the program does once it has found external changes.\<close>

definition reverse_sync :: "unit io" where
  "reverse_sync =
     bind get_current_branch (\<lambda>original_branch.
       try_finally
         (except_CalledProcessError
            (bind steps_1_to_5 (\<lambda>go_on. if go_on then step_6 else ret ())))
         (restore_branch original_branch))"

definition sync_from_wiki :: "unit io" where
  "sync_from_wiki =
     bind check_preconditions (\<lambda>_.
     bind has_external_changes (\<lambda>changed.
       if \<not> changed then ret () else reverse_sync))"


section \<open>Notions the properties are stated with\<close>

text \<open>The revision recorded at the last sync, if any.\<close>

definition recorded_revision :: "world \<Rightarrow> rev option" where
  "recorded_revision w = (case state_file w of None \<Rightarrow> None | Some s \<Rightarrow> last_master_hash s)"

text \<open>Between two worlds, no commit was made on the vault branch and no state was saved.\<close>

definition nothing_published :: "world \<Rightarrow> world \<Rightarrow> bool" where
  "nothing_published w w' \<longleftrightarrow> obsidian w' = obsidian w \<and> state_file w' = state_file w"

text \<open>
  The branch names in the output of \<^verbatim>\<open>git branch -a\<close>: every line holds two characters
  that mark the current branch, then the name.
\<close>

definition listed_branches :: "string \<Rightarrow> string list" where
  "listed_branches listing = map (drop 2) (filter (\<lambda>l. l \<noteq> []) (split_on newline listing))"

text \<open>
  A repository to run the orchestrator on: the vault branch is checked out, the last sync
  saw commit \<open>c1\<close>, and the remote has a newer commit \<open>c2\<close> that edits a page and adds a
  picture.
\<close>

definition wiki_repo :: world where
  "wiki_repo =
     \<lparr>git_dir = True,
      branch_listing =
        ''  master'' @ [newline] @ ''  ob_to_gh'' @ [newline] @ ''* obsidian'' @ [newline],
      current_branch = ''obsidian'',
      local_master = [''c1''],
      origin_master = [''c1''],
      remote_master = [''c2'', ''c1''],
      merge_commit = None,
      objects =
        [(''c1'', [(''Home.md'', ''Welcome'')]),
         (''c2'', [(''Home.md'', ''See [[Display|Target-Page]]''), (''logo.png'', ''PNG'')])],
      obsidian = [(''Initial vault'', [(''Home.md'', ''Welcome'')])],
      other_branches = [(''ob_to_gh'', [(''Home.md'', ''Welcome'')])],
      worktree = [(''Home.md'', ''Welcome'')],
      state_file =
        Some \<lparr>last_master_hash = Some ''c1'', last_sync_time = Some ''2024-05-01T09:00:00''\<rparr>,
      now = ''2024-05-02T10:30:00'',
      plan = [],
      trace = []\<rparr>"

text \<open>The same repository with nothing to sync: \<open>c2\<close> is pulled and recorded.\<close>

definition synced_repo :: world where
  "synced_repo =
     wiki_repo\<lparr>local_master := [''c2'', ''c1''], origin_master := [''c2'', ''c1''],
               state_file := Some \<lparr>last_master_hash = Some ''c2'',
                                   last_sync_time = Some ''2024-05-01T09:00:00''\<rparr>\<rparr>"

text \<open>The repository \<open>wiki_repo\<close> on a day when the eleventh command, \<^verbatim>\<open>git add --all\<close>, fails.\<close>

definition failing_add_repo :: world where
  "failing_add_repo = wiki_repo\<lparr>plan := replicate 10 Done @ [NonZero]\<rparr>"

text \<open>
  The repository \<open>wiki_repo\<close> after the forward-tracking branch was renamed: no branch
  \<^verbatim>\<open>ob_to_gh\<close> exists, a branch \<^verbatim>\<open>ob_to_gh_old\<close> does.
\<close>

definition renamed_branch_repo :: world where
  "renamed_branch_repo =
     wiki_repo\<lparr>branch_listing :=
                 ''  master'' @ [newline] @ ''  ob_to_gh_old'' @ [newline] @ ''* obsidian''
                   @ [newline],
               other_branches := [(''ob_to_gh_old'', [(''Home.md'', ''Welcome'')])]\<rparr>"

text \<open>
  The repository \<open>wiki_repo\<close> when the new commit on the remote only adds the picture and
  leaves the page alone.
\<close>

definition picture_only_repo :: world where
  "picture_only_repo =
     wiki_repo\<lparr>objects :=
                 [(''c1'', [(''Home.md'', ''Welcome'')]),
                  (''c2'', [(''Home.md'', ''Welcome''), (''logo.png'', ''PNG'')])]\<rparr>"

text \<open>The command of step 2 that lists the changed files.\<close>

definition list_command :: "world \<Rightarrow> string" where
  "list_command w =
     (if recorded_revision w \<noteq> None \<and> recorded_revision w \<noteq> Some []
      then ''git diff --name-only '' @ the (recorded_revision w) @ '' HEAD''
      else find_command)"


text \<open>
  Frame properties of computations. A relation between the world before and the world
  after is steady when it holds of a world and itself, composes, and ignores the plan and
  the trace.
\<close>

definition steady :: "(world \<Rightarrow> world \<Rightarrow> bool) \<Rightarrow> bool" where
  "steady R \<longleftrightarrow>
     (\<forall>w. R w w) \<and> (\<forall>a b c. R a b \<longrightarrow> R b c \<longrightarrow> R a c) \<and> (\<forall>c x w. R w (started c x w))"

definition preserves :: "(world \<Rightarrow> world \<Rightarrow> bool) \<Rightarrow> 'a io \<Rightarrow> bool" where
  "preserves R m \<longleftrightarrow> (\<forall>w r w'. m w = (r, w') \<longrightarrow> R w w')"

definition preserves_on_error :: "(world \<Rightarrow> world \<Rightarrow> bool) \<Rightarrow> 'a io \<Rightarrow> bool" where
  "preserves_on_error R m \<longleftrightarrow> (\<forall>w e w'. m w = (Inl e, w') \<longrightarrow> R w w')"

definition never_exits :: "'a io \<Rightarrow> bool" where
  "never_exits m \<longleftrightarrow> (\<forall>w e w'. m w = (Inl e, w') \<longrightarrow> (\<forall>n. e \<noteq> SystemExit n))"


section \<open>Properties of the regular-expression matcher\<close>

declare re_sub.simps [simp del]

lemma ms_Seq_One:
  "ms ic (Seq (One cs) r) s =
     (case s of [] \<Rightarrow> [] | c # t \<Rightarrow> if accepts ic cs c then ms ic r t else [])"
  by (simp split: list.splits)






lemma re_sub_Nil_no_match:
  "re_match ic r [] = None \<Longrightarrow> re_sub ic r repl [] = []"
  by (subst re_sub.simps) simp



lemma ms_One_Cons:
  "ms ic (One cs) (c # t) = (if accepts ic cs c then [([], t)] else [])"
  by simp


lemma ms_Seq_One_Nil: "ms ic (Seq (One cs) r) [] = []"
  by simp




section \<open>Properties of the dialect converter\<close>

text \<open>
  Claim C3 says that the page-link pass leaves every image embed alone, also one with a
  \<^verbatim>\<open>|\<close> inside. The prefix group \<^verbatim>\<open>([^!]?)\<close> may match the empty string, so the pattern
  still matches right after the \<^verbatim>\<open>!\<close>: the pass swaps the two halves of the embed
  \<^verbatim>\<open>![[diagram.png|200]]\<close>.
\<close>

theorem page_link_pass_rewrites_image_embed:
  "page_link_pass ''![[diagram.png|200]]'' = ''![[200|diagram.png]]''"
  by code_simp

text \<open>
  Claim C4 says that the image pass puts a \<^verbatim>\<open>!\<close> before \<^verbatim>\<open>[[name.ext]]\<close> unless one is
  there already. The same optional prefix group lets the pattern match behind a \<^verbatim>\<open>!\<close>:
  the embed \<^verbatim>\<open>![[diagram.png]]\<close> gets a second \<^verbatim>\<open>!\<close>.
\<close>

theorem image_link_pass_repeats_bang:
  "image_link_pass ''![[diagram.png]]'' = ''!![[diagram.png]]''"
  by code_simp




section \<open>Running computations step by step\<close>

lemma bind_Inr:
  "bind m k w = (Inr y, w') \<longleftrightarrow> (\<exists>x w1. m w = (Inr x, w1) \<and> k x w1 = (Inr y, w'))"
  by (auto simp: bind_def split: prod.splits sum.splits)

lemma bind_Inl:
  "bind m k w = (Inl e, w') \<longleftrightarrow>
     m w = (Inl e, w') \<or> (\<exists>x w1. m w = (Inr x, w1) \<and> k x w1 = (Inl e, w'))"
  by (auto simp: bind_def split: prod.splits sum.splits)

lemma bind_ok: "m w = (Inr x, w1) \<Longrightarrow> bind m k w = k x w1"
  by (simp add: bind_def)

lemma bind_fail: "m w = (Inl e, w1) \<Longrightarrow> bind m k w = (Inl e, w1)"
  by (simp add: bind_def)

lemma ret_eq: "ret x w = (r, w') \<longleftrightarrow> r = Inr x \<and> w' = w"
  by (auto simp: ret_def)

lemma raise_eq: "raise e w = (r, w') \<longleftrightarrow> r = Inl e \<and> w' = w"
  by (auto simp: raise_def)

lemma get_eq: "get f w = (r, w') \<longleftrightarrow> r = Inr (f w) \<and> w' = w"
  by (auto simp: get_def)

lemma check_output_Inr:
  "check_output c eff w = (Inr out, w') \<longleftrightarrow>
     planned w = Done \<and> (\<exists>w1. eff w = Some (out, w1) \<and> w' = started c Done w1)"
  by (cases "planned w") (auto simp: check_output_def process_def split: option.splits)

lemma check_output_Inl:
  "check_output c eff w = (Inl e, w') \<longleftrightarrow>
     (planned w = NonZero \<and> e = CalledProcessError c \<and> w' = started c NonZero w)
     \<or> (planned w = Slow \<and> e = TimeoutExpired c \<and> w' = started c Slow w)
     \<or> (planned w = Done \<and> eff w = None \<and> e = CalledProcessError c \<and> w' = started c NonZero w)"
  by (cases "planned w") (auto simp: check_output_def process_def split: option.splits)

lemma run_checked_Inr:
  "run_checked c eff w = (Inr u, w') \<longleftrightarrow>
     planned w = Done \<and> (\<exists>out w1. eff w = Some (out, w1) \<and> w' = started c Done w1)"
  by (auto simp: run_checked_def bind_Inr ret_eq check_output_Inr)

lemma run_checked_Inl:
  "run_checked c eff w = (Inl e, w') \<longleftrightarrow> check_output c eff w = (Inl e, w')"
  by (auto simp: run_checked_def bind_Inl ret_eq)

lemma check_output_untimed_Inr:
  "check_output_untimed c eff w = (Inr out, w') \<longleftrightarrow>
     planned w \<noteq> NonZero \<and> (\<exists>w1. eff w = Some (out, w1) \<and> w' = started c Done w1)"
  by (cases "planned w") (auto simp: check_output_untimed_def process_def split: option.splits)

lemma started_fields [simp]:
  "git_dir (started c x w) = git_dir w"
  "branch_listing (started c x w) = branch_listing w"
  "current_branch (started c x w) = current_branch w"
  "local_master (started c x w) = local_master w"
  "origin_master (started c x w) = origin_master w"
  "remote_master (started c x w) = remote_master w"
  "merge_commit (started c x w) = merge_commit w"
  "objects (started c x w) = objects w"
  "obsidian (started c x w) = obsidian w"
  "other_branches (started c x w) = other_branches w"
  "worktree (started c x w) = worktree w"
  "state_file (started c x w) = state_file w"
  "now (started c x w) = now w"
  "plan (started c x w) = tl (plan w)"
  "trace (started c x w) = trace w @ [(c, x)]"
  by (simp_all add: started_def)

lemma get_local_master_hash_Inr:
  "get_local_master_hash w = (Inr h, w') \<longleftrightarrow>
     planned w = Done \<and> tip (local_master w) = Some h \<and> w' = started ''git rev-parse master'' Done w"
  by (auto simp: get_local_master_hash_def check_output_Inr git_rev_parse_master_def
           split: option.splits)

lemma get_remote_master_hash_Inr:
  "get_remote_master_hash w = (Inr h, w') \<Longrightarrow>
     tip (remote_master w) = Some h \<and>
     w' = started ''git rev-parse origin/master'' Done
            (started ''git fetch origin master'' Done (w\<lparr>origin_master := remote_master w\<rparr>))"
  by (auto simp: get_remote_master_hash_def bind_Inr run_checked_Inr check_output_Inr
        git_fetch_origin_master_def git_rev_parse_origin_master_def split: option.splits)

lemma load_sync_state_eq:
  "load_sync_state w = (r, w') \<longleftrightarrow>
     w' = w \<and> r = Inr (case state_file w of Some s \<Rightarrow> s
                        | None \<Rightarrow> \<lparr>last_master_hash = None, last_sync_time = None\<rparr>)"
  by (auto simp: load_sync_state_def get_eq)

lemma has_external_changes_Inr:
  assumes "has_external_changes w = (Inr drift, w')"
  shows "drift \<longleftrightarrow>
           (tip (local_master w) \<noteq> tip (remote_master w) \<or> recorded_revision w = None
            \<or> tip (local_master w) \<noteq> recorded_revision w)"
    and "w' = started ''git rev-parse origin/master'' Done
            (started ''git fetch origin master'' Done
              (started ''git rev-parse master'' Done w\<lparr>origin_master := remote_master w\<rparr>))"
proof -
  from assms obtain s h w1 r w2 where
    s: "load_sync_state w = (Inr s, w)" and
    h: "get_local_master_hash w = (Inr h, w1)" and
    r: "get_remote_master_hash w1 = (Inr r, w2)" and
    d: "(if h \<noteq> r then ret True
         else if last_master_hash s = None then ret True
         else if Some h \<noteq> last_master_hash s then ret True
         else ret False) w2 = (Inr drift, w')"
    unfolding has_external_changes_def bind_Inr load_sync_state_eq by blast
  from s have s': "last_master_hash s = recorded_revision w"
    by (auto simp: load_sync_state_eq recorded_revision_def split: option.splits)
  from h have h': "tip (local_master w) = Some h" and w1: "w1 = started ''git rev-parse master'' Done w"
    by (simp_all add: get_local_master_hash_Inr)
  from get_remote_master_hash_Inr[OF r] w1 have r': "tip (remote_master w) = Some r"
    and w2: "w2 = started ''git rev-parse origin/master'' Done
            (started ''git fetch origin master'' Done
              (started ''git rev-parse master'' Done w\<lparr>origin_master := remote_master w\<rparr>))"
    by simp_all
  from d show "drift \<longleftrightarrow>
           (tip (local_master w) \<noteq> tip (remote_master w) \<or> recorded_revision w = None
            \<or> tip (local_master w) \<noteq> recorded_revision w)"
    by (auto simp: ret_eq h' r' s'[symmetric] split: if_splits)
  from d have "w' = w2" by (auto simp: ret_eq split: if_splits)
  with w2 show "w' = started ''git rev-parse origin/master'' Done
            (started ''git fetch origin master'' Done
              (started ''git rev-parse master'' Done w\<lparr>origin_master := remote_master w\<rparr>))"
    by simp
qed

lemma check_preconditions_Inr:
  "check_preconditions w = (Inr u, w') \<longleftrightarrow>
     git_dir w \<and> planned w \<noteq> NonZero
     \<and> (\<forall>branch \<in> set required_branches. contains (branch_listing w) branch)
     \<and> w' = started ''git branch -a'' Done w"
  by (auto simp: check_preconditions_def bind_Inr get_eq raise_eq ret_eq
        check_output_untimed_Inr git_branch_a_def split: if_splits)

lemma pair_fst: "fst p = a \<Longrightarrow> p = (a, snd p)"
  by auto

section \<open>Frame rules\<close>

lemma steadyD:
  assumes "steady R"
  shows "R w w" and "R a b \<Longrightarrow> R b d \<Longrightarrow> R a d" and "R w (started c x w)"
  using assms unfolding steady_def by blast+

lemma preserves_ret: "steady R \<Longrightarrow> preserves R (ret x)"
  by (simp add: preserves_def ret_eq steadyD)

lemma preserves_raise: "steady R \<Longrightarrow> preserves R (raise e)"
  by (simp add: preserves_def raise_eq steadyD)

lemma preserves_get: "steady R \<Longrightarrow> preserves R (get f)"
  by (simp add: preserves_def get_eq steadyD)

lemma preserves_bind:
  assumes "steady R" "preserves R m" "\<And>x. preserves R (k x)"
  shows "preserves R (bind m k)"
  unfolding preserves_def
proof (intro allI impI)
  fix w r w' assume b: "bind m k w = (r, w')"
  show "R w w'"
  proof (cases "m w")
    case (Pair r1 w1)
    with assms(2) have 1: "R w w1" by (simp add: preserves_def)
    show ?thesis
    proof (cases r1)
      case (Inl e)
      with Pair b have "w' = w1" by (simp add: bind_def)
      with 1 show ?thesis by simp
    next
      case (Inr x)
      with Pair b have "k x w1 = (r, w')" by (simp add: bind_def)
      with assms(3) have "R w1 w'" by (simp add: preserves_def)
      with 1 show ?thesis using steadyD(2)[OF assms(1)] by blast
    qed
  qed
qed

lemma preserves_if:
  "preserves R a \<Longrightarrow> preserves R b \<Longrightarrow> preserves R (if c then a else b)"
  by simp

lemma process_cases:
  assumes "process c timed eff w = (r, w')"
  shows "(\<exists>x. w' = started c x w) \<or> (\<exists>out w1. eff w = Some (out, w1) \<and> w' = started c Done w1)"
  using assms by (auto simp: process_def split: if_splits option.splits)

lemma preserves_process:
  assumes "steady R" "\<And>w out w1. eff w = Some (out, w1) \<Longrightarrow> R w w1"
  shows "process c timed eff w = (r, w') \<Longrightarrow> R w w'"
  using process_cases[of c timed eff w r w'] assms(2) steadyD[OF assms(1)] by blast

lemma preserves_check_output:
  assumes "steady R" "\<And>w out w1. eff w = Some (out, w1) \<Longrightarrow> R w w1"
  shows "preserves R (check_output c eff)"
  unfolding preserves_def check_output_def
  using preserves_process[OF assms]
  by (auto split: prod.splits outcome.splits)

lemma preserves_check_output_untimed:
  assumes "steady R" "\<And>w out w1. eff w = Some (out, w1) \<Longrightarrow> R w w1"
  shows "preserves R (check_output_untimed c eff)"
  unfolding preserves_def check_output_untimed_def
  using preserves_process[OF assms]
  by (auto split: prod.splits outcome.splits)

lemma preserves_run_checked:
  assumes "steady R" "\<And>w out w1. eff w = Some (out, w1) \<Longrightarrow> R w w1"
  shows "preserves R (run_checked c eff)"
  unfolding run_checked_def
  by (intro preserves_bind preserves_check_output preserves_ret assms)

lemma preserves_run_unchecked:
  assumes "steady R" "\<And>w out w1. eff w = Some (out, w1) \<Longrightarrow> R w w1"
  shows "preserves R (run_unchecked c eff)"
  unfolding preserves_def run_unchecked_def
  using preserves_process[OF assms]
  by (auto split: prod.splits outcome.splits)

lemma on_error_of_preserves: "preserves R m \<Longrightarrow> preserves_on_error R m"
  by (simp add: preserves_def preserves_on_error_def)

lemma on_error_bind:
  assumes "steady R" "preserves R m" "\<And>x. preserves_on_error R (k x)"
  shows "preserves_on_error R (bind m k)"
  unfolding preserves_on_error_def
proof (intro allI impI)
  fix w e w' assume "bind m k w = (Inl e, w')"
  then consider "m w = (Inl e, w')" | x w1 where "m w = (Inr x, w1)" "k x w1 = (Inl e, w')"
    by (auto simp: bind_Inl)
  then show "R w w'"
  proof cases
    case 1
    with assms(2) show ?thesis by (simp add: preserves_def)
  next
    case 2
    with assms(2,3) have "R w w1" "R w1 w'"
      by (simp_all add: preserves_def preserves_on_error_def)
    then show ?thesis using steadyD(2)[OF assms(1)] by blast
  qed
qed

lemma on_error_run_checked:
  assumes "steady R"
  shows "preserves_on_error R (run_checked c eff)"
  unfolding preserves_on_error_def
  by (auto simp: run_checked_Inl check_output_Inl steadyD[OF assms])

lemma on_error_if:
  "preserves_on_error R a \<Longrightarrow> preserves_on_error R b \<Longrightarrow> preserves_on_error R (if c then a else b)"
  by simp

lemma on_error_ret: "preserves_on_error R (ret x)"
  by (simp add: preserves_on_error_def ret_eq)

lemma on_error_save: "preserves_on_error R (bind (save_sync_state h) (\<lambda>_. ret x))"
  by (auto simp: preserves_on_error_def bind_Inl save_sync_state_def ret_eq)

lemma never_exits_ret: "never_exits (ret x)"
  by (simp add: never_exits_def ret_eq)

lemma never_exits_get: "never_exits (get f)"
  by (simp add: never_exits_def get_eq)

lemma never_exits_bind:
  "never_exits m \<Longrightarrow> (\<And>x. never_exits (k x)) \<Longrightarrow> never_exits (bind m k)"
  unfolding never_exits_def bind_Inl by blast

lemma never_exits_if:
  "never_exits a \<Longrightarrow> never_exits b \<Longrightarrow> never_exits (if c then a else b)"
  by simp

lemma never_exits_check_output: "never_exits (check_output c eff)"
  by (auto simp: never_exits_def check_output_Inl)

lemma never_exits_run_checked: "never_exits (run_checked c eff)"
  by (auto simp: never_exits_def run_checked_Inl check_output_Inl)

lemma never_exits_run_unchecked: "never_exits (run_unchecked c eff)"
  by (auto simp: never_exits_def run_unchecked_def split: prod.splits outcome.splits)

lemma never_exits_save: "never_exits (save_sync_state h)"
  by (simp add: never_exits_def save_sync_state_def)

section \<open>Properties of the orchestrator\<close>

text \<open>
  Claim C2: once the preconditions hold, the drift check answers yes exactly when the
  local revision of \<^verbatim>\<open>master\<close> differs from the remote one it has just fetched, or no
  revision is recorded, or the local revision differs from the recorded one. On yes the
  orchestrator goes on with the reverse sync, on no it returns at once.
\<close>

theorem drift_decides:
  assumes "check_preconditions w0 = (Inr (), w)"
    and "has_external_changes w = (Inr drift, w')"
  shows "(drift \<longleftrightarrow>
            (tip (local_master w0) \<noteq> tip (remote_master w0) \<or> recorded_revision w0 = None
             \<or> tip (local_master w0) \<noteq> recorded_revision w0))
         \<and> sync_from_wiki w0 = (if drift then reverse_sync w' else (Inr (), w'))"
proof -
  from assms(1) have w: "w = started ''git branch -a'' Done w0"
    by (simp add: check_preconditions_Inr)
  have "sync_from_wiki w0 = (if drift then reverse_sync w' else (Inr (), w'))"
    unfolding sync_from_wiki_def using assms
    by (simp add: bind_def ret_def)
  moreover have "drift \<longleftrightarrow>
            (tip (local_master w0) \<noteq> tip (remote_master w0) \<or> recorded_revision w0 = None
             \<or> tip (local_master w0) \<noteq> recorded_revision w0)"
    using has_external_changes_Inr(1)[OF assms(2)] by (simp add: w recorded_revision_def)
  ultimately show ?thesis by simp
qed

theorem drift_decides_witness:
  "check_preconditions synced_repo = (Inr (), snd (check_preconditions synced_repo))
   \<and> has_external_changes (snd (check_preconditions synced_repo))
       = (Inr False, snd (has_external_changes (snd (check_preconditions synced_repo))))
   \<and> tip (local_master synced_repo) = tip (remote_master synced_repo)
   \<and> recorded_revision synced_repo = tip (local_master synced_repo)
   \<and> sync_from_wiki synced_repo
       = (Inr (), snd (has_external_changes (snd (check_preconditions synced_repo))))"
proof -
  have a: "check_preconditions synced_repo = (Inr (), snd (check_preconditions synced_repo))"
    by (rule pair_fst) code_simp
  have b: "has_external_changes (snd (check_preconditions synced_repo))
       = (Inr False, snd (has_external_changes (snd (check_preconditions synced_repo))))"
    by (rule pair_fst) code_simp
  have c: "tip (local_master synced_repo) = tip (remote_master synced_repo)" by code_simp
  have d: "recorded_revision synced_repo = tip (local_master synced_repo)" by code_simp
  from drift_decides[OF a b] a b c d show ?thesis by simp
qed

lemma steady_nothing_published: "steady nothing_published"
  by (simp add: steady_def nothing_published_def)

lemma quiet_effects:
  "git_branch_a w = Some (out, w1) \<Longrightarrow> nothing_published w w1"
  "git_rev_parse_abbrev_ref_HEAD w = Some (out, w1) \<Longrightarrow> nothing_published w w1"
  "git_rev_parse_master w = Some (out, w1) \<Longrightarrow> nothing_published w w1"
  "git_rev_parse_origin_master w = Some (out, w1) \<Longrightarrow> nothing_published w w1"
  "git_fetch_origin_master w = Some (out, w1) \<Longrightarrow> nothing_published w w1"
  "git_checkout b w = Some (out, w1) \<Longrightarrow> nothing_published w w1"
  "git_pull_origin_master w = Some (out, w1) \<Longrightarrow> nothing_published w w1"
  "git_diff_name_only r w = Some (out, w1) \<Longrightarrow> nothing_published w w1"
  "find_md w = Some (out, w1) \<Longrightarrow> nothing_published w w1"
  "git_checkout_master_file f w = Some (out, w1) \<Longrightarrow> nothing_published w w1"
  "git_add_all w = Some (out, w1) \<Longrightarrow> nothing_published w w1"
  by (auto simp: nothing_published_def git_branch_a_def git_rev_parse_abbrev_ref_HEAD_def
        git_rev_parse_master_def git_rev_parse_origin_master_def git_fetch_origin_master_def
        git_checkout_def git_pull_origin_master_def git_diff_name_only_def find_md_def
        git_checkout_master_file_def git_add_all_def Let_def
      split: option.splits if_splits)

lemmas np = steady_nothing_published

lemma quiet_get_current_branch: "preserves nothing_published get_current_branch"
  unfolding get_current_branch_def by (intro preserves_check_output np quiet_effects)

lemma quiet_get_local_master_hash: "preserves nothing_published get_local_master_hash"
  unfolding get_local_master_hash_def by (intro preserves_check_output np quiet_effects)

lemma quiet_get_remote_master_hash: "preserves nothing_published get_remote_master_hash"
  unfolding get_remote_master_hash_def
  by (intro preserves_bind preserves_run_checked preserves_check_output np quiet_effects)

lemma quiet_load_sync_state: "preserves nothing_published load_sync_state"
  unfolding load_sync_state_def by (intro preserves_get np)

lemma quiet_has_external_changes: "preserves nothing_published has_external_changes"
  unfolding has_external_changes_def
  by (intro preserves_bind preserves_if preserves_ret np quiet_load_sync_state
        quiet_get_local_master_hash quiet_get_remote_master_hash)

lemma quiet_check_preconditions: "preserves nothing_published check_preconditions"
  unfolding check_preconditions_def
  by (intro preserves_bind preserves_if preserves_ret preserves_raise preserves_get
        preserves_check_output_untimed np quiet_effects)

lemma quiet_list_changed_files: "preserves nothing_published list_changed_files"
  unfolding list_changed_files_def
  by (intro preserves_bind preserves_if preserves_ret preserves_check_output np
        quiet_load_sync_state quiet_effects)

lemma quiet_steps_1_and_2: "preserves nothing_published steps_1_and_2"
  unfolding steps_1_and_2_def
  by (intro preserves_bind preserves_run_checked np quiet_list_changed_files quiet_effects)

lemma quiet_apply_reverse_conversions:
  "preserves nothing_published (apply_reverse_conversions f)"
  by (auto simp: preserves_def apply_reverse_conversions_def nothing_published_def Let_def
      split: option.splits if_splits)

lemma quiet_convert_files: "preserves nothing_published (convert_files fs)"
proof (induction fs)
  case Nil
  show ?case by (simp add: preserves_ret np)
next
  case (Cons f fs)
  show ?case
    unfolding convert_files.simps
    by (intro preserves_bind preserves_run_checked preserves_ret np quiet_effects
          quiet_apply_reverse_conversions Cons.IH)
qed

lemma quiet_restore_branch: "preserves nothing_published (restore_branch b)"
  unfolding restore_branch_def
  by (intro preserves_bind preserves_if preserves_ret preserves_run_unchecked np
        quiet_get_current_branch quiet_effects)

lemma quiet_commit_on_error: "preserves_on_error nothing_published (commit_converted fs)"
  unfolding commit_converted_def
  by (intro on_error_if on_error_bind on_error_run_checked on_error_ret
        preserves_run_checked np quiet_effects)

lemma quiet_steps_3_to_5_on_error: "preserves_on_error nothing_published (steps_3_to_5 fs)"
  unfolding steps_3_to_5_def
  by (intro on_error_bind preserves_run_checked quiet_convert_files quiet_commit_on_error
        np quiet_effects)

lemma on_error_bind_ret:
  "preserves_on_error R m \<Longrightarrow> preserves_on_error R (bind m (\<lambda>_. ret x))"
  by (auto simp: preserves_on_error_def bind_Inl ret_eq)

lemma quiet_save_on_error:
  "preserves_on_error nothing_published
     (bind get_local_master_hash (\<lambda>h. bind (save_sync_state h) (\<lambda>_. ret False)))"
  by (intro on_error_bind on_error_save quiet_get_local_master_hash np)

lemma quiet_steps_1_to_5_on_error: "preserves_on_error nothing_published steps_1_to_5"
  unfolding steps_1_to_5_def
  apply (rule on_error_bind[OF np quiet_steps_1_and_2])
  apply (rule on_error_if[OF quiet_save_on_error])
  apply (rule on_error_bind[OF np preserves_get[OF np]])
  apply (rule on_error_if[OF quiet_save_on_error])
  apply (rule on_error_bind_ret[OF quiet_steps_3_to_5_on_error])
  done

lemma never_exits_apply: "never_exits (apply_reverse_conversions f)"
  by (auto simp: never_exits_def apply_reverse_conversions_def Let_def
      split: option.splits if_splits)

lemma never_exits_convert_files: "never_exits (convert_files fs)"
proof (induction fs)
  case Nil
  show ?case by (simp add: never_exits_ret)
next
  case (Cons f fs)
  show ?case
    unfolding convert_files.simps
    by (intro never_exits_bind never_exits_run_checked never_exits_ret never_exits_apply Cons.IH)
qed

lemma never_exits_get_current_branch: "never_exits get_current_branch"
  unfolding get_current_branch_def by (rule never_exits_check_output)

lemma never_exits_get_local_master_hash: "never_exits get_local_master_hash"
  unfolding get_local_master_hash_def by (rule never_exits_check_output)

lemma never_exits_steps_1_to_5: "never_exits steps_1_to_5"
  unfolding steps_1_to_5_def steps_1_and_2_def steps_3_to_5_def list_changed_files_def
    commit_converted_def load_sync_state_def
  by (intro never_exits_bind never_exits_if never_exits_run_checked never_exits_check_output
        never_exits_ret never_exits_get never_exits_save never_exits_convert_files
        never_exits_get_local_master_hash)

lemma never_exits_restore_branch: "never_exits (restore_branch b)"
  unfolding restore_branch_def
  by (intro never_exits_bind never_exits_if never_exits_run_unchecked never_exits_ret
        never_exits_get_current_branch)

text \<open>What the \<open>try\<close> statement makes of a failure in its body.\<close>

lemma guarded_failure:
  assumes body: "body w = (Inl e, w1)" and e: "\<And>n. e \<noteq> SystemExit n"
    and cleanup: "never_exits cleanup" "preserves R cleanup"
  shows "\<exists>e' w'. try_finally (except_CalledProcessError body) cleanup w = (Inl e', w')
           \<and> exit_status (Inl e') = 1 \<and> R w1 w'"
proof -
  obtain e1 where g: "except_CalledProcessError body w = (Inl e1, w1)"
    and e1: "exit_status (Inl e1) = 1"
    using body e by (cases e) (auto simp: except_CalledProcessError_def)
  obtain r2 w2 where c: "cleanup w1 = (r2, w2)" by (cases "cleanup w1")
  with cleanup(2) have R: "R w1 w2" by (simp add: preserves_def)
  show ?thesis
  proof (cases r2)
    case (Inl e2)
    with c cleanup(1) have "\<And>n. e2 \<noteq> SystemExit n" by (auto simp: never_exits_def)
    then have "exit_status (Inl e2) = 1" by (cases e2) auto
    with g c Inl R show ?thesis by (simp add: try_finally_def)
  next
    case (Inr u)
    with g c e1 R show ?thesis by (simp add: try_finally_def)
  qed
qed

text \<open>
  Claim C6: when the run has got as far as the \<^verbatim>\<open>try\<close> block and a command of steps 1 to 5
  (pulling, listing, converting, committing) fails or times out, the program ends with
  status 1, the vault branch has no new commit and the state file is as it was.
\<close>

theorem failed_sync_publishes_nothing:
  assumes "check_preconditions w = (Inr (), w1)"
    and "has_external_changes w1 = (Inr True, w2)"
    and "get_current_branch w2 = (Inr original_branch, w3)"
    and "steps_1_to_5 w3 = (Inl e, w4)"
  shows "\<exists>e' w'. sync_from_wiki w = (Inl e', w') \<and> exit_status (Inl e') = 1
           \<and> obsidian w' = obsidian w \<and> state_file w' = state_file w"
proof -
  let ?body = "bind steps_1_to_5 (\<lambda>go_on. if go_on then step_6 else ret ())"
  have run: "sync_from_wiki w =
      try_finally (except_CalledProcessError ?body) (restore_branch original_branch) w3"
    unfolding sync_from_wiki_def reverse_sync_def using assms(1-3) by (simp add: bind_def)
  have body: "?body w3 = (Inl e, w4)" using assms(4) by (simp add: bind_def)
  have e: "\<And>n. e \<noteq> SystemExit n"
    using never_exits_steps_1_to_5 assms(4) unfolding never_exits_def by blast
  from guarded_failure[where body = ?body and cleanup = "restore_branch original_branch"
        and R = nothing_published, OF body e never_exits_restore_branch quiet_restore_branch]
  obtain e' w' where r: "try_finally (except_CalledProcessError ?body)
        (restore_branch original_branch) w3 = (Inl e', w')"
    and s: "exit_status (Inl e') = 1" and q4: "nothing_published w4 w'" by blast
  have "nothing_published w w1" "nothing_published w1 w2" "nothing_published w2 w3"
    "nothing_published w3 w4"
    using assms quiet_check_preconditions quiet_has_external_changes quiet_get_current_branch
      quiet_steps_1_to_5_on_error
    unfolding preserves_def preserves_on_error_def by blast+
  with q4 have "nothing_published w w'" by (simp add: nothing_published_def)
  with run r s show ?thesis by (simp add: nothing_published_def)
qed

theorem failed_sync_publishes_nothing_witness:
  "check_preconditions failing_add_repo = (Inr (), snd (check_preconditions failing_add_repo))
   \<and> has_external_changes (snd (check_preconditions failing_add_repo))
       = (Inr True, snd (has_external_changes (snd (check_preconditions failing_add_repo))))
   \<and> get_current_branch (snd (has_external_changes (snd (check_preconditions failing_add_repo))))
       = (Inr ''obsidian'',
          snd (get_current_branch
                 (snd (has_external_changes (snd (check_preconditions failing_add_repo))))))
   \<and> steps_1_to_5
        (snd (get_current_branch
                (snd (has_external_changes (snd (check_preconditions failing_add_repo))))))
       = (Inl (CalledProcessError ''git add --all''),
          snd (steps_1_to_5
                 (snd (get_current_branch
                         (snd (has_external_changes
                                 (snd (check_preconditions failing_add_repo))))))))
   \<and> map_of (worktree (snd (sync_from_wiki failing_add_repo))) ''Home.md''
       = Some ''See [[Target Page|Display]]''
   \<and> exit_status (fst (sync_from_wiki failing_add_repo)) = 1
   \<and> obsidian (snd (sync_from_wiki failing_add_repo)) = obsidian failing_add_repo
   \<and> state_file (snd (sync_from_wiki failing_add_repo)) = state_file failing_add_repo"
proof -
  let ?w1 = "snd (check_preconditions failing_add_repo)"
  let ?w2 = "snd (has_external_changes ?w1)"
  let ?w3 = "snd (get_current_branch ?w2)"
  let ?w4 = "snd (steps_1_to_5 ?w3)"
  have a: "check_preconditions failing_add_repo = (Inr (), ?w1)"
    by (rule pair_fst) code_simp
  have b: "has_external_changes ?w1 = (Inr True, ?w2)"
    by (rule pair_fst) code_simp
  have c: "get_current_branch ?w2 = (Inr ''obsidian'', ?w3)"
    by (rule pair_fst) code_simp
  have d: "steps_1_to_5 ?w3 = (Inl (CalledProcessError ''git add --all''), ?w4)"
    by (rule pair_fst) code_simp
  have f: "map_of (worktree (snd (sync_from_wiki failing_add_repo))) ''Home.md''
       = Some ''See [[Target Page|Display]]''"
    by code_simp
  from failed_sync_publishes_nothing[OF a b c d]
  have "exit_status (fst (sync_from_wiki failing_add_repo)) = 1
   \<and> obsidian (snd (sync_from_wiki failing_add_repo)) = obsidian failing_add_repo
   \<and> state_file (snd (sync_from_wiki failing_add_repo)) = state_file failing_add_repo"
    by auto
  with a b c d f show ?thesis by simp
qed

text \<open>
  Claim C8: a run whose drift check finds no drift returns at once. It has started the
  four commands of the checks and nothing else: the checked-out branch, the working
  tree, both branches and the state file are as they were.
\<close>

theorem no_drift_no_action:
  assumes "check_preconditions w = (Inr (), w1)"
    and "has_external_changes w1 = (Inr False, w2)"
  shows "sync_from_wiki w = (Inr (), w2)
         \<and> current_branch w2 = current_branch w \<and> worktree w2 = worktree w
         \<and> local_master w2 = local_master w \<and> obsidian w2 = obsidian w
         \<and> state_file w2 = state_file w
         \<and> trace w2 = trace w @ [(''git branch -a'', Done), (''git rev-parse master'', Done),
              (''git fetch origin master'', Done), (''git rev-parse origin/master'', Done)]"
proof -
  have "sync_from_wiki w = (Inr (), w2)"
    unfolding sync_from_wiki_def using assms by (simp add: bind_def ret_def)
  moreover from assms(1) have "w1 = started ''git branch -a'' Done w"
    by (simp add: check_preconditions_Inr)
  ultimately show ?thesis using has_external_changes_Inr(2)[OF assms(2)] by simp
qed

theorem no_drift_no_action_witness:
  "check_preconditions synced_repo = (Inr (), snd (check_preconditions synced_repo))
   \<and> has_external_changes (snd (check_preconditions synced_repo))
       = (Inr False, snd (has_external_changes (snd (check_preconditions synced_repo))))
   \<and> fst (sync_from_wiki synced_repo) = Inr ()
   \<and> current_branch (snd (sync_from_wiki synced_repo)) = ''obsidian''
   \<and> obsidian (snd (sync_from_wiki synced_repo)) = obsidian synced_repo
   \<and> state_file (snd (sync_from_wiki synced_repo)) = state_file synced_repo
   \<and> map fst (trace (snd (sync_from_wiki synced_repo)))
       = [''git branch -a'', ''git rev-parse master'', ''git fetch origin master'',
          ''git rev-parse origin/master'']"
proof -
  have a: "check_preconditions synced_repo = (Inr (), snd (check_preconditions synced_repo))"
    by (rule pair_fst) code_simp
  have b: "has_external_changes (snd (check_preconditions synced_repo))
       = (Inr False, snd (has_external_changes (snd (check_preconditions synced_repo))))"
    by (rule pair_fst) code_simp
  have c: "current_branch synced_repo = ''obsidian''" "trace synced_repo = []"
    by code_simp+
  from no_drift_no_action[OF a b] a b c show ?thesis by simp
qed

text \<open>
  The branch check of lines 151 to 156 stops the run when a required name does not occur
  in the listing at all.
\<close>

lemma missing_branch_stops:
  assumes "git_dir w" and "planned w \<noteq> NonZero"
    and "branch \<in> set required_branches" and "\<not> contains (branch_listing w) branch"
  shows "sync_from_wiki w = (Inl (SystemExit 1), started ''git branch -a'' Done w)"
proof -
  have "check_output_untimed ''git branch -a'' git_branch_a w
          = (Inr (branch_listing w), started ''git branch -a'' Done w)"
    using assms(2) by (simp add: check_output_untimed_Inr git_branch_a_def)
  then have "check_preconditions w = (Inl (SystemExit 1), started ''git branch -a'' Done w)"
    unfolding check_preconditions_def using assms(1,3,4)
    by (auto simp: bind_def get_def raise_def)
  then show ?thesis by (simp add: sync_from_wiki_def bind_def)
qed

text \<open>
  Claim C7 says that the run stops before it changes anything when a required branch is
  absent. The check looks for each name anywhere in the listing, so the name of another
  branch can stand in: without a branch \<^verbatim>\<open>ob_to_gh\<close> but with \<^verbatim>\<open>ob_to_gh_old\<close> the run goes
  on, pulls, commits to the vault branch and saves the state.
\<close>

theorem substring_passes_branch_check:
  "''ob_to_gh'' \<notin> set (listed_branches (branch_listing renamed_branch_repo))
   \<and> fst (sync_from_wiki renamed_branch_repo) = Inr ()
   \<and> local_master (snd (sync_from_wiki renamed_branch_repo)) = [''c2'', ''c1'']
   \<and> map fst (obsidian (snd (sync_from_wiki renamed_branch_repo)))
       = [''Sync from GitHub Wiki: converted 1 files'', ''Initial vault'']
   \<and> recorded_revision (snd (sync_from_wiki renamed_branch_repo)) = Some ''c2''"
  by code_simp

section \<open>The run without markdown files\<close>

lemma planned_Nil: "plan w = [] \<Longrightarrow> planned w = Done"
  by (simp add: planned_def)

lemma git_diff_name_only_Some: "git_diff_name_only r w = Some (out, w1) \<Longrightarrow> w1 = w"
  by (simp add: git_diff_name_only_def split: option.splits prod.splits)

lemma find_md_Some: "find_md w = Some (out, w1) \<Longrightarrow> w1 = w"
  by (simp add: find_md_def)

lemma list_changed_files_unfold:
  "list_changed_files w =
     (if recorded_revision w \<noteq> None \<and> recorded_revision w \<noteq> Some []
      then bind (check_output (list_command w) (git_diff_name_only (the (recorded_revision w))))
             (\<lambda>out. ret (strip out)) w
      else bind (check_output (list_command w) find_md) (\<lambda>out. ret (strip out)) w)"
proof -
  define s where "s = (case state_file w of Some s \<Rightarrow> s
                        | None \<Rightarrow> \<lparr>last_master_hash = None, last_sync_time = None\<rparr>)"
  have r: "last_master_hash s = recorded_revision w"
    by (simp add: s_def recorded_revision_def split: option.splits)
  have "list_changed_files w =
     (if last_master_hash s \<noteq> None \<and> last_master_hash s \<noteq> Some []
       then bind (check_output
                    (''git diff --name-only '' @ the (last_master_hash s) @ '' HEAD'')
                    (git_diff_name_only (the (last_master_hash s))))
              (\<lambda>out. ret (strip out)) w
       else bind (check_output find_command find_md) (\<lambda>out. ret (strip out)) w)"
    unfolding list_changed_files_def load_sync_state_def s_def
    by (simp only: bind_def get_def prod.case sum.case if_distribR)
  then show ?thesis
    unfolding r
    by (cases "recorded_revision w \<noteq> None \<and> recorded_revision w \<noteq> Some []")
       (simp_all only: list_command_def if_True if_False simp_thms)
qed

lemma list_changed_files_Inr:
  assumes "list_changed_files w = (Inr out, w')"
  shows "w' = started (list_command w) Done w"
  using assms unfolding list_changed_files_unfold
  by (auto simp: bind_Inr ret_eq check_output_Inr
      dest: git_diff_name_only_Some find_md_Some split: if_splits)

lemma git_checkout_Some:
  "git_checkout b w = Some (out, w1) \<Longrightarrow>
     \<exists>t. branch_tree w b = Some t \<and> w1 = w\<lparr>current_branch := b, worktree := t\<rparr>"
  by (auto simp: git_checkout_def split: option.splits)

lemma reaches_antisym: "reaches a b \<Longrightarrow> reaches b a \<Longrightarrow> a = b"
  by (auto simp: reaches_def)

lemma branch_tree_master_Some: "branch_tree w ''master'' = Some t \<Longrightarrow> local_master w \<noteq> []"
  by (auto simp: branch_tree_def)

lemma git_pull_Some:
  assumes "git_pull_origin_master w = Some (out, w1)"
  shows "\<exists>h t. w1 = w\<lparr>origin_master := remote_master w, local_master := h, worktree := t\<rparr>
           \<and> h \<noteq> []
           \<and> (reaches (local_master w) (remote_master w) \<longrightarrow> h = remote_master w)"
proof -
  define merged where "merged =
     (if reaches (remote_master w) (local_master w) then Some (local_master w)
      else if reaches (local_master w) (remote_master w) then Some (remote_master w)
      else (case merge_commit w of None \<Rightarrow> None | Some m \<Rightarrow> Some (m # local_master w)))"
  from assms obtain h t where m: "merged = Some h"
    and t: "branch_tree (w\<lparr>origin_master := remote_master w, local_master := h\<rparr>) ''master'' = Some t"
    and w1: "w1 = w\<lparr>origin_master := remote_master w, local_master := h, worktree := t\<rparr>"
    unfolding git_pull_origin_master_def merged_def[symmetric]
    by (auto simp: Let_def split: option.splits)
  from branch_tree_master_Some[OF t] have "h \<noteq> []" by simp
  moreover have "h = remote_master w" if "reaches (local_master w) (remote_master w)"
    using m that reaches_antisym[of "local_master w" "remote_master w"]
    by (auto simp: merged_def split: if_splits)
  ultimately show ?thesis using w1 by blast
qed

lemma steps_1_and_2_Inr:
  assumes "steps_1_and_2 w = (Inr out, w')"
  shows "current_branch w' = ''master''" and "local_master w' \<noteq> []"
    and "obsidian w' = obsidian w" and "state_file w' = state_file w" and "now w' = now w"
    and "git_dir w' = git_dir w" and "branch_listing w' = branch_listing w"
    and "remote_master w' = remote_master w"
    and "plan w' = tl (tl (tl (plan w)))"
    and "trace w' = trace w @ [(''git checkout master'', Done), (''git pull origin master'', Done),
           (list_command w, Done)]"
    and "reaches (local_master w) (remote_master w) \<Longrightarrow> local_master w' = remote_master w"
proof -
  from assms obtain w1 w2 where
    1: "run_checked ''git checkout master'' (git_checkout ''master'') w = (Inr (), w1)" and
    2: "run_checked ''git pull origin master'' git_pull_origin_master w1 = (Inr (), w2)" and
    3: "list_changed_files w2 = (Inr out, w')"
    unfolding steps_1_and_2_def bind_Inr by auto
  from 1 obtain t where w1: "w1 = started ''git checkout master'' Done
      (w\<lparr>current_branch := ''master'', worktree := t\<rparr>)"
    by (auto simp: run_checked_Inr dest!: git_checkout_Some)
  from 2 obtain o2 v where p: "git_pull_origin_master w1 = Some (o2, v)"
    and w2: "w2 = started ''git pull origin master'' Done v"
    by (auto simp: run_checked_Inr)
  from git_pull_Some[OF p] obtain h t2 where
    v: "v = w1\<lparr>origin_master := remote_master w1, local_master := h, worktree := t2\<rparr>"
    and h: "h \<noteq> []" "reaches (local_master w1) (remote_master w1) \<longrightarrow> h = remote_master w1"
    by blast
  from list_changed_files_Inr[OF 3] have w': "w' = started (list_command w2) Done w2" .
  have lc: "list_command w2 = list_command w"
    by (simp add: list_command_def recorded_revision_def w2 v w1)
  show "current_branch w' = ''master''" "local_master w' \<noteq> []"
    "obsidian w' = obsidian w" "state_file w' = state_file w" "now w' = now w"
    "git_dir w' = git_dir w" "branch_listing w' = branch_listing w"
    "remote_master w' = remote_master w"
    "plan w' = tl (tl (tl (plan w)))"
    using h(1) by (simp_all add: w' w2 v w1)
  have "trace w' = trace w2 @ [(list_command w, Done)]" by (simp add: w' lc)
  then show "trace w' = trace w @ [(''git checkout master'', Done),
           (''git pull origin master'', Done), (list_command w, Done)]"
    by (simp add: w2 v w1)
  show "local_master w' = remote_master w" if "reaches (local_master w) (remote_master w)"
    using h(2) that by (simp add: w' w2 v w1)
qed

lemma get_current_branch_Inr:
  "get_current_branch w = (Inr b, w') \<longleftrightarrow>
     planned w = Done \<and> b = current_branch w
     \<and> w' = started ''git rev-parse --abbrev-ref HEAD'' Done w"
  by (auto simp: get_current_branch_def check_output_Inr git_rev_parse_abbrev_ref_HEAD_def)

lemma no_output_no_files: "md_files_of (changed_files_of []) w = []"
  by (simp add: md_files_of_def changed_files_of_def strip_def)

lemma save_after_rev_parse:
  assumes "planned w = Done" and "tip (local_master w) = Some h"
  shows "bind get_local_master_hash (\<lambda>h. bind (save_sync_state h) (\<lambda>_. ret x)) w =
           (Inr x, (started ''git rev-parse master'' Done w)
                     \<lparr>state_file := Some \<lparr>last_master_hash = Some h,
                                          last_sync_time = Some (now w)\<rparr>\<rparr>)"
proof -
  have "get_local_master_hash w = (Inr h, started ''git rev-parse master'' Done w)"
    using assms by (simp add: get_local_master_hash_Inr)
  then show ?thesis by (simp add: bind_def save_sync_state_def ret_def)
qed

lemma restore_branch_unplanned:
  assumes "plan w = []"
  shows "\<exists>w'. restore_branch original_branch w = (Inr (), w')
           \<and> obsidian w' = obsidian w \<and> state_file w' = state_file w
           \<and> local_master w' = local_master w
           \<and> map fst (trace w') = map fst (trace w) @ [''git rev-parse --abbrev-ref HEAD'']
                @ (if original_branch = current_branch w then []
                   else [''git checkout '' @ original_branch])"
proof -
  let ?w1 = "started ''git rev-parse --abbrev-ref HEAD'' Done w"
  have g: "get_current_branch w = (Inr (current_branch w), ?w1)"
    using assms by (simp add: get_current_branch_Inr planned_Nil)
  show ?thesis
  proof (cases "original_branch = current_branch w")
    case True
    with g show ?thesis by (simp add: restore_branch_def bind_def ret_def)
  next
    case False
    have p: "planned ?w1 = Done" using assms by (simp add: planned_def)
    let ?c = "''git checkout '' @ original_branch"
    from False g have r: "restore_branch original_branch w
        = run_unchecked ?c (git_checkout original_branch) ?w1"
      by (simp add: restore_branch_def bind_def)
    show ?thesis
    proof (cases "git_checkout original_branch ?w1")
      case None
      with p have "run_unchecked ?c (git_checkout original_branch) ?w1
          = (Inr (), started ?c NonZero ?w1)"
        by (simp add: run_unchecked_def process_def)
      with r False show ?thesis by simp
    next
      case (Some a)
      then obtain out v where a: "a = (out, v)" by (cases a)
      with Some git_checkout_Some[of original_branch ?w1 out v] obtain t where
        v: "v = ?w1\<lparr>current_branch := original_branch, worktree := t\<rparr>" by auto
      from p Some a have "run_unchecked ?c (git_checkout original_branch) ?w1
          = (Inr (), started ?c Done v)"
        by (simp add: run_unchecked_def process_def)
      with r False v show ?thesis by simp
    qed
  qed
qed

text \<open>
  Claim C10, as the code has it: when drift was found and no path in the output of
  step 2 is an existing markdown file (an empty output names no path), and the commands
  that are left succeed, the run returns normally with the state file holding the local
  revision of \<^verbatim>\<open>master\<close>, and the vault branch has no new commit. Between the pull and the
  return the run starts three commands at most: it reads the revision, reads the current
  branch, and checks out the branch the run began on unless that is \<^verbatim>\<open>master\<close>. So the
  vault branch is checked out exactly when the run began on it.
\<close>

theorem no_markdown_saves_state:
  assumes "check_preconditions w = (Inr (), w1)"
    and "has_external_changes w1 = (Inr True, w2)"
    and "get_current_branch w2 = (Inr original_branch, w3)"
    and "steps_1_and_2 w3 = (Inr changed_files_output, w4)"
    and "md_files_of (changed_files_of changed_files_output) w4 = []"
    and "plan w4 = []"
  shows "\<exists>w'. sync_from_wiki w = (Inr (), w')
           \<and> state_file w' = Some \<lparr>last_master_hash = tip (local_master w'),
                                     last_sync_time = Some (now w)\<rparr>
           \<and> tip (local_master w') \<noteq> None
           \<and> obsidian w' = obsidian w
           \<and> map fst (trace w') = map fst (trace w) @
                [''git branch -a'', ''git rev-parse master'', ''git fetch origin master'',
                 ''git rev-parse origin/master'', ''git rev-parse --abbrev-ref HEAD'',
                 ''git checkout master'', ''git pull origin master'', list_command w,
                 ''git rev-parse master'', ''git rev-parse --abbrev-ref HEAD'']
                @ (if original_branch = ''master'' then []
                   else [''git checkout '' @ original_branch])"
proof -
  let ?body = "bind steps_1_to_5 (\<lambda>go_on. if go_on then step_6 else ret ())"
  have run: "sync_from_wiki w =
      try_finally (except_CalledProcessError ?body) (restore_branch original_branch) w3"
    unfolding sync_from_wiki_def reverse_sync_def using assms(1-3) by (simp add: bind_def)
  from assms(1) have w1: "w1 = started ''git branch -a'' Done w"
    by (simp add: check_preconditions_Inr)
  note w2 = has_external_changes_Inr(2)[OF assms(2)]
  from assms(3) have w3: "w3 = started ''git rev-parse --abbrev-ref HEAD'' Done w2"
    by (simp add: get_current_branch_Inr)
  note s = steps_1_and_2_Inr[OF assms(4)]
  obtain h where h: "tip (local_master w4) = Some h"
    using s(2) by (cases "local_master w4") (auto simp: tip_def)
  define w5 where "w5 = (started ''git rev-parse master'' Done w4)
      \<lparr>state_file := Some \<lparr>last_master_hash = Some h, last_sync_time = Some (now w4)\<rparr>\<rparr>"
  have save: "bind get_local_master_hash (\<lambda>h. bind (save_sync_state h) (\<lambda>_. ret False)) w4
      = (Inr False, w5)"
    unfolding w5_def using assms(6) h by (intro save_after_rev_parse) (simp_all add: planned_Nil)
  have "steps_1_to_5 w3 = (Inr False, w5)"
  proof (cases "changed_files_output = []")
    case True
    with assms(4) save show ?thesis by (simp add: steps_1_to_5_def bind_def)
  next
    case False
    with assms(4,5) save show ?thesis by (simp add: steps_1_to_5_def bind_def get_def)
  qed
  then have body: "except_CalledProcessError ?body w3 = (Inr (), w5)"
    by (simp add: except_CalledProcessError_def bind_def ret_def)
  have "plan w5 = []" using assms(6) by (simp add: w5_def)
  from restore_branch_unplanned[OF this, of original_branch] obtain w' where
    r: "restore_branch original_branch w5 = (Inr (), w')"
    and f: "obsidian w' = obsidian w5" "state_file w' = state_file w5"
      "local_master w' = local_master w5"
      "map fst (trace w') = map fst (trace w5) @ [''git rev-parse --abbrev-ref HEAD'']
                @ (if original_branch = current_branch w5 then []
                   else [''git checkout '' @ original_branch])"
    by blast
  from body r have "try_finally (except_CalledProcessError ?body)
      (restore_branch original_branch) w3 = (Inr (), w')"
    by (simp add: try_finally_def)
  with run have 1: "sync_from_wiki w = (Inr (), w')" by simp
  have lc: "list_command w3 = list_command w"
    by (simp add: list_command_def recorded_revision_def w3 w2 w1)
  have 2: "state_file w' = Some \<lparr>last_master_hash = tip (local_master w'),
                                   last_sync_time = Some (now w)\<rparr>"
    using f(2,3) h s(5) by (simp add: w5_def w3 w2 w1)
  have 3: "tip (local_master w') \<noteq> None" using f(3) h by (simp add: w5_def)
  have 4: "obsidian w' = obsidian w" using f(1) s(3) by (simp add: w5_def w3 w2 w1)
  have "current_branch w5 = ''master''" using s(1) by (simp add: w5_def)
  with f(4) have "map fst (trace w') = map fst (trace w4) @
      [''git rev-parse master'', ''git rev-parse --abbrev-ref HEAD'']
      @ (if original_branch = ''master'' then [] else [''git checkout '' @ original_branch])"
    by (simp add: w5_def)
  moreover have "map fst (trace w4) = map fst (trace w) @
      [''git branch -a'', ''git rev-parse master'', ''git fetch origin master'',
       ''git rev-parse origin/master'', ''git rev-parse --abbrev-ref HEAD'',
       ''git checkout master'', ''git pull origin master'', list_command w]"
    using s(10) lc by (simp add: w3 w2 w1)
  ultimately have 5: "map fst (trace w') = map fst (trace w) @
                [''git branch -a'', ''git rev-parse master'', ''git fetch origin master'',
                 ''git rev-parse origin/master'', ''git rev-parse --abbrev-ref HEAD'',
                 ''git checkout master'', ''git pull origin master'', list_command w,
                 ''git rev-parse master'', ''git rev-parse --abbrev-ref HEAD'']
                @ (if original_branch = ''master'' then []
                   else [''git checkout '' @ original_branch])"
    by simp
  from 1 2 3 4 5 show ?thesis by blast
qed

theorem no_markdown_saves_state_witness:
  "(let w1 = snd (check_preconditions picture_only_repo);
        w2 = snd (has_external_changes w1);
        w3 = snd (get_current_branch w2);
        w4 = snd (steps_1_and_2 w3);
        w' = snd (sync_from_wiki picture_only_repo)
    in check_preconditions picture_only_repo = (Inr (), w1)
       \<and> has_external_changes w1 = (Inr True, w2)
       \<and> get_current_branch w2 = (Inr ''obsidian'', w3)
       \<and> steps_1_and_2 w3 = (Inr ''logo.png'', w4)
       \<and> md_files_of (changed_files_of ''logo.png'') w4 = []
       \<and> plan w4 = []
       \<and> fst (sync_from_wiki picture_only_repo) = Inr ()
       \<and> state_file w' = Some \<lparr>last_master_hash = Some ''c2'',
                                last_sync_time = Some ''2024-05-02T10:30:00''\<rparr>
       \<and> obsidian w' = obsidian picture_only_repo
       \<and> map fst (trace w') =
            [''git branch -a'', ''git rev-parse master'', ''git fetch origin master'',
             ''git rev-parse origin/master'', ''git rev-parse --abbrev-ref HEAD'',
             ''git checkout master'', ''git pull origin master'',
             ''git diff --name-only c1 HEAD'', ''git rev-parse master'',
             ''git rev-parse --abbrev-ref HEAD'', ''git checkout obsidian''])"
proof -
  let ?w1 = "snd (check_preconditions picture_only_repo)"
  let ?w2 = "snd (has_external_changes ?w1)"
  let ?w3 = "snd (get_current_branch ?w2)"
  let ?w4 = "snd (steps_1_and_2 ?w3)"
  have a: "check_preconditions picture_only_repo = (Inr (), ?w1)"
    by (rule pair_fst) code_simp
  have b: "has_external_changes ?w1 = (Inr True, ?w2)"
    by (rule pair_fst) code_simp
  have c: "get_current_branch ?w2 = (Inr ''obsidian'', ?w3)"
    by (rule pair_fst) code_simp
  have d: "steps_1_and_2 ?w3 = (Inr ''logo.png'', ?w4)"
    by (rule pair_fst) code_simp
  have e: "md_files_of (changed_files_of ''logo.png'') ?w4 = []"
    by code_simp
  have f: "plan ?w4 = []"
    by code_simp
  have g: "tip (local_master (snd (sync_from_wiki picture_only_repo))) = Some ''c2''"
    "now picture_only_repo = ''2024-05-02T10:30:00''"
    "trace picture_only_repo = []"
    "list_command picture_only_repo = ''git diff --name-only c1 HEAD''"
    by code_simp+
  from no_markdown_saves_state[OF a b c d e f] g a b c d e f
  show ?thesis by (auto simp: Let_def)
qed

text \<open>
  As claim C10 is worded, the vault branch is never checked out on this path. A run that
  begins on the vault branch ends by checking it out again.
\<close>

theorem no_markdown_checks_out_vault:
  "fst (has_external_changes (snd (check_preconditions picture_only_repo))) = Inr True
   \<and> sync_from_wiki picture_only_repo =
       (Inr (),
        picture_only_repo
          \<lparr>local_master := [''c2'', ''c1''], origin_master := [''c2'', ''c1''],
           state_file := Some \<lparr>last_master_hash = Some ''c2'',
                               last_sync_time = Some ''2024-05-02T10:30:00''\<rparr>,
           trace := [(''git branch -a'', Done), (''git rev-parse master'', Done),
                     (''git fetch origin master'', Done), (''git rev-parse origin/master'', Done),
                     (''git rev-parse --abbrev-ref HEAD'', Done), (''git checkout master'', Done),
                     (''git pull origin master'', Done), (''git diff --name-only c1 HEAD'', Done),
                     (''git rev-parse master'', Done), (''git rev-parse --abbrev-ref HEAD'', Done),
                     (''git checkout obsidian'', Done)]\<rparr>)
   \<and> (''git checkout obsidian'', Done) \<in> set (trace (snd (sync_from_wiki picture_only_repo)))"
  by code_simp

section \<open>Loop avoidance\<close>


















end
